theory Spec2Isabelle
  imports Main "HOL-Library.Word"
begin

section \<open>The CEF host bridge (tools/cef\_host\_bridge/src/main.cpp)\<close>

text \<open>
  A shallow embedding of the bridge's request helpers, its shared session record, the
  per-request dispatcher of \<open>ServeHttp\<close>, the tasks run on the control thread and the
  paint callback. A \<open>std::string\<close> is a \<open>string\<close> (a list of 8-bit \<open>char\<close>s),
  \<open>uint8_t\<close>, \<open>uint32_t\<close> and \<open>uint64_t\<close> are words, \<open>size_t\<close> and
  \<open>long\<close> are 64 bits wide (LP64), and the C library runs in its default "C" locale.
\<close>

subsection \<open>Character and string helpers\<close>

type_synonym u8 = "8 word"
type_synonym u32 = "32 word"
type_synonym u64 = "64 word"

text \<open>\<open>std::tolower\<close> on an \<open>unsigned char\<close>: only \<open>A\<close>..\<open>Z\<close> change.\<close>

definition tolower_c :: "char \<Rightarrow> char" where
  "tolower_c c =
     (if (65::nat) \<le> of_char c \<and> (of_char c :: nat) \<le> 90
      then char_of ((of_char c :: nat) + 32) else c)"

definition ToLowerAscii :: "string \<Rightarrow> string" where
  "ToLowerAscii text = map tolower_c text"

fun JsonEscape_char :: "char \<Rightarrow> string" where
  "JsonEscape_char c =
     (if c = CHR 0x5C then [CHR 0x5C, CHR 0x5C]
      else if c = CHR 0x22 then [CHR 0x5C, CHR 0x22]
      else if c = CHR 0x0A then [CHR 0x5C, CHR ''n'']
      else if c = CHR 0x0D then [CHR 0x5C, CHR ''r'']
      else if c = CHR 0x09 then [CHR 0x5C, CHR ''t'']
      else [c])"

definition JsonEscape :: "string \<Rightarrow> string" where
  "JsonEscape inp = concat (map JsonEscape_char inp)"

fun JsSingleQuoteEscape_char :: "char \<Rightarrow> string" where
  "JsSingleQuoteEscape_char c =
     (if c = CHR 0x5C then [CHR 0x5C, CHR 0x5C]
      else if c = CHR 0x27 then [CHR 0x5C, CHR 0x27]
      else if c = CHR 0x0A then [CHR 0x5C, CHR ''n'']
      else if c = CHR 0x0D then [CHR 0x5C, CHR ''r'']
      else [c])"

definition JsSingleQuoteEscape :: "string \<Rightarrow> string" where
  "JsSingleQuoteEscape inp = concat (map JsSingleQuoteEscape_char inp)"

subsection \<open>The C library's \<open>strtol\<close>\<close>

text \<open>
  \<open>c_str\<close> is what a C function sees of a \<open>std::string\<close>: the characters before the
  first NUL. \<open>strtol base s\<close> returns the value and the offset of \<open>*end\<close> in that
  C string: white space is skipped, one sign is accepted, base 16 accepts a \<open>0x\<close> prefix
  in front of a hexadecimal digit, then the longest run of digits is read; with no digit
  at all the value is 0 and \<open>end\<close> is the start of the string; a value out of the range
  of \<open>long\<close> is clamped to \<open>LONG_MAX\<close> or \<open>LONG_MIN\<close>.
\<close>

definition c_str :: "string \<Rightarrow> string" where
  "c_str s = takeWhile (\<lambda>c. c \<noteq> CHR 0x00) s"

definition isspace_c :: "char \<Rightarrow> bool" where
  "isspace_c c = (c = CHR 0x20 \<or> ((9::nat) \<le> of_char c \<and> (of_char c :: nat) \<le> 13))"

definition digit_value :: "char \<Rightarrow> nat option" where
  "digit_value c =
     (let n = (of_char c :: nat) in
      if 48 \<le> n \<and> n \<le> 57 then Some (n - 48)
      else if 97 \<le> n \<and> n \<le> 122 then Some (n - 87)
      else if 65 \<le> n \<and> n \<le> 90 then Some (n - 55)
      else None)"

definition is_digit :: "nat \<Rightarrow> char \<Rightarrow> bool" where
  "is_digit base c = (case digit_value c of None \<Rightarrow> False | Some d \<Rightarrow> d < base)"

definition digits_value :: "nat \<Rightarrow> string \<Rightarrow> nat" where
  "digits_value base ds = foldl (\<lambda>a c. a * base + the (digit_value c)) 0 ds"

definition LONG_MAX :: int where
  "LONG_MAX = 2 ^ 63 - 1"

definition LONG_MIN :: int where
  "LONG_MIN = - (2 ^ 63)"

definition has_hex_prefix :: "string \<Rightarrow> bool" where
  "has_hex_prefix s =
     (case s of
        a # b # c # _ \<Rightarrow> a = CHR ''0'' \<and> (b = CHR ''x'' \<or> b = CHR ''X'') \<and> is_digit 16 c
      | _ \<Rightarrow> False)"

definition strtol :: "nat \<Rightarrow> string \<Rightarrow> int \<times> nat" where
  "strtol base s =
     (let ws = length (takeWhile isspace_c s);
          r1 = drop ws s;
          neg = (case r1 of [] \<Rightarrow> False | c # _ \<Rightarrow> c = CHR ''-'');
          sg = (case r1 of [] \<Rightarrow> 0 | c # _ \<Rightarrow> if c = CHR ''-'' \<or> c = CHR ''+'' then 1 else 0);
          r2 = drop sg r1;
          px = (if base = 16 \<and> has_hex_prefix r2 then 2 else 0);
          ds = takeWhile (is_digit base) (drop px r2);
          mag = int (digits_value base ds)
      in if ds = [] then (0, 0)
         else (if neg then max (- mag) LONG_MIN else min mag LONG_MAX,
               ws + sg + px + length ds))"

subsection \<open>\<open>UrlDecode\<close>\<close>

text \<open>
  The loop over the index \<open>i\<close> is a recursion on the rest of the text from \<open>i\<close> on:
  \<open>i + 2 < text.size()\<close> says that two characters follow the one at \<open>i\<close>, and
  \<open>text.substr(i + 1, 2)\<close> is those two. \<open>*end == 0\<close> holds when \<open>end\<close> is at
  the end of the C string. \<open>v & 0xFF\<close> on a two's complement \<open>long\<close> is \<open>v mod 256\<close>.
\<close>

definition hex_pair_ok :: "string \<Rightarrow> bool" where
  "hex_pair_ok hex = (snd (strtol 16 (c_str hex)) = length (c_str hex))"

definition hex_pair_byte :: "string \<Rightarrow> char" where
  "hex_pair_byte hex = char_of (fst (strtol 16 (c_str hex)) mod 256)"

fun UrlDecode :: "string \<Rightarrow> string" where
  "UrlDecode [] = []"
| "UrlDecode (c # x # y # rest) =
     (if c = CHR ''+'' then CHR 0x20 # UrlDecode (x # y # rest)
      else if c = CHR ''%'' \<and> hex_pair_ok [x, y]
      then hex_pair_byte [x, y] # UrlDecode rest
      else c # UrlDecode (x # y # rest))"
| "UrlDecode (c # rest) =
     (if c = CHR ''+'' then CHR 0x20 # UrlDecode rest else c # UrlDecode rest)"

subsection \<open>Requests and parameters\<close>

text \<open>
  The parsed request. The field \<open>method\<close> of the source is \<open>http_method\<close> here; a
  \<open>std::map\<close> is a partial function.
\<close>

record HttpRequest =
  http_method :: string
  path :: string
  query :: "string \<rightharpoonup> string"
  headers :: "string \<rightharpoonup> string"
  form :: "string \<rightharpoonup> string"
  body :: string

text \<open>
  \<open>std::getline(ss, pair, '&')\<close> yields the pieces between the \<open>&\<close>s; the loop skips
  the empty ones, and \<open>out[k] = v\<close> overwrites an earlier entry of the same key.
\<close>

fun split_on :: "char \<Rightarrow> string \<Rightarrow> string list" where
  "split_on d [] = [[]]"
| "split_on d (c # cs) =
     (if c = d then [] # split_on d cs
      else (case split_on d cs of
              [] \<Rightarrow> [[c]]
            | p # ps \<Rightarrow> (c # p) # ps))"

definition ParseUrlEncoded_pair :: "(string \<rightharpoonup> string) \<Rightarrow> string \<Rightarrow> (string \<rightharpoonup> string)" where
  "ParseUrlEncoded_pair out pair =
     (if pair = [] then out
      else if CHR ''='' \<notin> set pair then out(UrlDecode pair \<mapsto> [])
      else out(UrlDecode (takeWhile (\<lambda>c. c \<noteq> CHR ''='') pair) \<mapsto>
               UrlDecode (tl (dropWhile (\<lambda>c. c \<noteq> CHR ''='') pair))))"

definition ParseUrlEncoded :: "string \<Rightarrow> (string \<rightharpoonup> string)" where
  "ParseUrlEncoded text = foldl ParseUrlEncoded_pair Map.empty (split_on CHR ''&'' text)"

definition GetParam :: "HttpRequest \<Rightarrow> string \<Rightarrow> string" where
  "GetParam req key =
     (case query req key of
        Some v \<Rightarrow> v
      | None \<Rightarrow> (case form req key of Some v \<Rightarrow> v | None \<Rightarrow> []))"

definition INT32_MIN :: int where
  "INT32_MIN = - (2 ^ 31)"

definition INT32_MAX :: int where
  "INT32_MAX = 2 ^ 31 - 1"

definition ParseIntDefault :: "string \<Rightarrow> int \<Rightarrow> int" where
  "ParseIntDefault text fallback =
     (if text = [] then fallback
      else (let r = strtol 10 (c_str text) in
            if snd r \<noteq> length (c_str text) then fallback
            else if fst r < INT32_MIN \<or> fst r > INT32_MAX then fallback
            else fst r))"

definition script_text_head :: string where
  \<open>script_text_head = ''(()=>{const t='' @ [CHR 0x27]\<close>

definition script_text_tail :: string where
  \<open>script_text_tail = CHR 0x27 # '';const el=document.activeElement;if(el&&('' @ [CHR 0x27]
     @ ''value'' @ [CHR 0x27]
     @ '' in el)){el.value+=t;el.dispatchEvent(new Event('' @ [CHR 0x27] @ ''input'' @ [CHR 0x27]
     @ '',{bubbles:true}));}else{document.body.append(t);}})();''\<close>

definition script_key_head :: string where
  \<open>script_key_head = ''(()=>{const k='' @ [CHR 0x27]\<close>

definition script_key_tail :: string where
  \<open>script_key_tail = CHR 0x27 # '';document.dispatchEvent(new KeyboardEvent('' @ [CHR 0x27]
     @ ''keydown'' @ [CHR 0x27]
     @ '',{key:k,bubbles:true}));document.dispatchEvent(new KeyboardEvent('' @ [CHR 0x27]
     @ ''keyup'' @ [CHR 0x27] @ '',{key:k,bubbles:true}));})();''\<close>

definition BuildInputScript :: "HttpRequest \<Rightarrow> string" where
  "BuildInputScript req =
     (let type = ToLowerAscii (GetParam req ''type'') in
      if type = ''text''
      then script_text_head @ JsSingleQuoteEscape (GetParam req ''text'') @ script_text_tail
      else if type = ''key''
      then script_key_head
           @ JsSingleQuoteEscape (if GetParam req ''key'' = [] then ''Enter'' else GetParam req ''key'')
           @ script_key_tail
      else if type = ''back'' then ''(()=>{history.back();})();''
      else if type = ''forward'' then ''(()=>{history.forward();})();''
      else if type = ''reload'' then ''(()=>{location.reload();})();''
      else [])"

subsection \<open>The shared session record\<close>

record SharedState =
  running :: bool
  bind_addr :: string
  current_url :: string
  title :: string
  last_error :: string
  last_ipc :: string
  open_requests :: u64
  eval_requests :: u64
  input_requests :: u64
  frame_capture :: bool
  frame_width :: u32
  frame_height :: u32
  frame_seq :: u64
  frame_bgra :: "u8 list"

definition SetError :: "SharedState \<Rightarrow> string \<Rightarrow> SharedState" where
  "SetError state err = state\<lparr>last_error := err\<rparr>"

definition SetRunning :: "SharedState \<Rightarrow> bool \<Rightarrow> SharedState" where
  "SetRunning state r = state\<lparr>running := r\<rparr>"

definition SetCurrentUrl :: "SharedState \<Rightarrow> string \<Rightarrow> SharedState" where
  "SetCurrentUrl state url = state\<lparr>current_url := url\<rparr>"

definition SetTitle :: "SharedState \<Rightarrow> string \<Rightarrow> SharedState" where
  "SetTitle state t = state\<lparr>title := t\<rparr>"

text \<open>\<open>os << n\<close> for an unsigned integer: its decimal digits.\<close>

fun dec_string :: "nat \<Rightarrow> string" where
  "dec_string n =
     (if n < 10 then [char_of (48 + n)]
      else dec_string (n div 10) @ [char_of (48 + n mod 10)])"

declare dec_string.simps [simp del]

definition bool_string :: "bool \<Rightarrow> string" where
  "bool_string b = (if b then ''true'' else ''false'')"

definition BuildStatusJson :: "SharedState \<Rightarrow> string" where
  \<open>BuildStatusJson state =
     ''{'' @ ''"ok":true,'' @ ''"backend":"cef",'' @ ''"mode":"host-http-bridge",''
     @ ''"running":'' @ bool_string (running state) @ '',''
     @ ''"bind_addr":"'' @ JsonEscape (bind_addr state) @ ''",''
     @ ''"current_url":"'' @ JsonEscape (current_url state) @ ''",''
     @ ''"title":"'' @ JsonEscape (title state) @ ''",''
     @ ''"open_requests":'' @ dec_string (unat (open_requests state)) @ '',''
     @ ''"eval_requests":'' @ dec_string (unat (eval_requests state)) @ '',''
     @ ''"input_requests":'' @ dec_string (unat (input_requests state)) @ '',''
     @ ''"frame_capture":'' @ bool_string (frame_capture state) @ '',''
     @ ''"frame_width":'' @ dec_string (unat (frame_width state)) @ '',''
     @ ''"frame_height":'' @ dec_string (unat (frame_height state)) @ '',''
     @ ''"frame_seq":'' @ dec_string (unat (frame_seq state)) @ '',''
     @ ''"last_error":"'' @ JsonEscape (last_error state) @ ''",''
     @ ''"last_ipc":"'' @ JsonEscape (last_ipc state) @ ''"''
     @ ''}''\<close>

subsection \<open>Tasks for the control thread\<close>

datatype NativeInputKind = MouseClick | MouseScroll

datatype task =
    OpenUrlTask string
  | EvalTask string
  | NativeInputTask NativeInputKind int int int
  | QuitTask

text \<open>
  \<open>Execute\<close> of each task. The browser is the engine's: \<open>ready\<close> says that
  \<open>GetGlobalBrowser()\<close> and the frame or host the task asks for are non-null. What the
  engine then does (navigation, script, mouse events, leaving its message loop) is outside
  the session record.
\<close>

fun Execute :: "bool \<Rightarrow> task \<Rightarrow> SharedState \<Rightarrow> SharedState" where
  "Execute ready (OpenUrlTask url) state =
     (if \<not> ready then SetError state ''open failed: browser not ready''
      else SetCurrentUrl state url)"
| "Execute ready (EvalTask js) state =
     (if \<not> ready then SetError state ''eval failed: browser not ready'' else state)"
| "Execute ready (NativeInputTask kind x y delta) state =
     (if \<not> ready then SetError state ''input failed: browser not ready'' else state)"
| "Execute ready QuitTask state = SetRunning state False"

subsection \<open>The dispatcher: one parsed request\<close>

datatype http_response =
  HttpResponse (resp_status: int) (resp_content_type: string) (resp_body: string)

text \<open>
  What handling one request does: the response written to the client, the task handed to
  \<open>CefPostTask\<close> (if the route calls it at all) and the session record afterwards.
  \<open>CefPostTask\<close> is the engine's; its result is the parameter \<open>post_ok\<close>
  (\<open>False\<close>: the queue rejected the task). The listener takes the lock for each read or
  update of the record; here one request is one step on the record.
\<close>

record dispatch_result =
  response :: http_response
  posted :: "task option"
  new_state :: SharedState

definition json_response :: "int \<Rightarrow> string \<Rightarrow> http_response" where
  "json_response st b = HttpResponse st ''application/json'' b"

definition body_missing_url :: string where
  \<open>body_missing_url = ''{"ok":false,"error":"missing url"}''\<close>

definition body_missing_js :: string where
  \<open>body_missing_js = ''{"ok":false,"error":"missing js"}''\<close>

definition body_post_task_failed :: string where
  \<open>body_post_task_failed = ''{"ok":false,"error":"post task failed"}''\<close>

definition body_input_type_invalid :: string where
  \<open>body_input_type_invalid = ''{"ok":false,"error":"input type invalid"}''\<close>

definition body_click_requires :: string where
  \<open>body_click_requires = ''{"ok":false,"error":"click requires x and y"}''\<close>

definition body_no_frame :: string where
  \<open>body_no_frame = ''{"ok":false,"error":"no frame yet (wait for OnPaint)"}''\<close>

definition body_queued :: "string \<Rightarrow> string" where
  \<open>body_queued what = ''{"ok":true,"queued":"'' @ what @ ''"}''\<close>

definition body_queued_open :: "string \<Rightarrow> string" where
  \<open>body_queued_open url = ''{"ok":true,"queued":"open","url":"'' @ JsonEscape url @ ''"}''\<close>

definition body_routes :: string where
  \<open>body_routes = ''routes: /status /open?url= /eval?js= /input?type=... /frame /quit'' @ [CHR 0x0A]\<close>

text \<open>
  The pattern shared by the posting routes but \<open>/quit\<close>:
  \<open>if (!CefPostTask(TID_UI, t)) { SetError(state, err); send 500 } else { send 200 }\<close>.
\<close>

definition post_checked ::
  "bool \<Rightarrow> task \<Rightarrow> string \<Rightarrow> string \<Rightarrow> SharedState \<Rightarrow> dispatch_result" where
  "post_checked post_ok t err ok_body state =
     (if \<not> post_ok
      then \<lparr>response = json_response 500 body_post_task_failed, posted = Some t,
            new_state = SetError state err\<rparr>
      else \<lparr>response = json_response 200 ok_body, posted = Some t, new_state = state\<rparr>)"

definition route_status :: "SharedState \<Rightarrow> dispatch_result" where
  "route_status state =
     \<lparr>response = json_response 200 (BuildStatusJson state), posted = None, new_state = state\<rparr>"

definition route_open :: "bool \<Rightarrow> HttpRequest \<Rightarrow> SharedState \<Rightarrow> dispatch_result" where
  "route_open post_ok req state =
     (let url = GetParam req ''url'' in
      if url = []
      then \<lparr>response = json_response 400 body_missing_url, posted = None, new_state = state\<rparr>
      else post_checked post_ok (OpenUrlTask url) ''open failed: CefPostTask error''
             (body_queued_open url) (state\<lparr>open_requests := open_requests state + 1\<rparr>))"

definition route_eval :: "bool \<Rightarrow> HttpRequest \<Rightarrow> SharedState \<Rightarrow> dispatch_result" where
  "route_eval post_ok req state =
     (let js = GetParam req ''js'' in
      if js = []
      then \<lparr>response = json_response 400 body_missing_js, posted = None, new_state = state\<rparr>
      else post_checked post_ok (EvalTask js) ''eval failed: CefPostTask error''
             (body_queued ''eval'') (state\<lparr>eval_requests := eval_requests state + 1\<rparr>))"

text \<open>
  \<open>static_cast<int>(state->frame_width / 2)\<close>: the unsigned half, read as a signed
  32-bit value.
\<close>

definition half_as_int :: "u32 \<Rightarrow> int" where
  "half_as_int w = sint (w div 2)"

definition route_input :: "bool \<Rightarrow> HttpRequest \<Rightarrow> SharedState \<Rightarrow> dispatch_result" where
  "route_input post_ok req state =
     (let input_type = ToLowerAscii (GetParam req ''type'') in
      if input_type = []
      then \<lparr>response = json_response 400 body_input_type_invalid, posted = None,
            new_state = state\<rparr>
      else
        (let state1 = state\<lparr>input_requests := input_requests state + 1\<rparr> in
         if input_type = ''click''
         then (let x = ParseIntDefault (GetParam req ''x'') (- 1);
                   y = ParseIntDefault (GetParam req ''y'') (- 1)
               in if x < 0 \<or> y < 0
                  then \<lparr>response = json_response 400 body_click_requires, posted = None,
                        new_state = state1\<rparr>
                  else post_checked post_ok (NativeInputTask MouseClick x y 0)
                         ''input click failed: CefPostTask error'' (body_queued ''click'') state1)
         else if input_type = ''scroll''
         then (let x0 = ParseIntDefault (GetParam req ''x'') (- 1);
                   y0 = ParseIntDefault (GetParam req ''y'') (- 1);
                   delta = ParseIntDefault (GetParam req ''delta'') 120;
                   x = (if x0 < 0 then half_as_int (frame_width state1) else x0);
                   y = (if y0 < 0 then half_as_int (frame_height state1) else y0)
               in post_checked post_ok (NativeInputTask MouseScroll x y delta)
                    ''input scroll failed: CefPostTask error'' (body_queued ''scroll'') state1)
         else (let js = BuildInputScript req in
               if js = []
               then \<lparr>response = json_response 400 body_input_type_invalid, posted = None,
                     new_state = state1\<rparr>
               else post_checked post_ok (EvalTask js) ''input failed: CefPostTask error''
                      (body_queued ''input'') state1)))"

text \<open>
  \<open>/frame\<close>. \<open>expected\<close> is a \<open>size_t\<close> product, so it wraps at \<open>2 ^ 64\<close>. The loop
  \<open>for (i = 0; i < expected; i += 4)\<close> appends red, green and blue of the pixel at \<open>i\<close>.
\<close>

definition expected_bytes :: "u32 \<Rightarrow> u32 \<Rightarrow> nat" where
  "expected_bytes width height = (unat width * unat height * 4) mod 2 ^ 64"

definition byte_char :: "u8 \<Rightarrow> char" where
  "byte_char b = char_of (unat b)"

function frame_loop :: "nat \<Rightarrow> nat \<Rightarrow> u8 list \<Rightarrow> string \<Rightarrow> string" where
  "frame_loop i expected bgra out =
     (if i < expected
      then frame_loop (i + 4) expected bgra
             (out @ [byte_char (bgra ! (i + 2)), byte_char (bgra ! (i + 1)), byte_char (bgra ! i)])
      else out)"
  by pat_completeness auto
termination
  by (relation "measure (\<lambda>(i, expected, bgra, out). expected - i)") auto

declare frame_loop.simps [simp del]

definition ppm_header :: "u32 \<Rightarrow> u32 \<Rightarrow> string" where
  "ppm_header width height =
     ''P6'' @ [CHR 0x0A] @ dec_string (unat width) @ '' '' @ dec_string (unat height)
     @ [CHR 0x0A] @ ''255'' @ [CHR 0x0A]"

definition route_frame :: "SharedState \<Rightarrow> dispatch_result" where
  "route_frame state =
     (let width = frame_width state;
          height = frame_height state;
          bgra = frame_bgra state;
          expected = expected_bytes width height
      in if width = 0 \<or> height = 0 \<or> length bgra < expected
         then \<lparr>response = json_response 503 body_no_frame, posted = None, new_state = state\<rparr>
         else \<lparr>response = HttpResponse 200 ''image/x-portable-pixmap''
                            (frame_loop 0 expected bgra (ppm_header width height)),
               posted = None, new_state = state\<rparr>)"

text \<open>\<open>/quit\<close> does not look at what \<open>CefPostTask\<close> returns.\<close>

definition route_quit :: "bool \<Rightarrow> SharedState \<Rightarrow> dispatch_result" where
  "route_quit post_ok state =
     \<lparr>response = json_response 200 (body_queued ''quit''), posted = Some QuitTask,
      new_state = state\<rparr>"

definition ServeHttp_request :: "bool \<Rightarrow> HttpRequest \<Rightarrow> SharedState \<Rightarrow> dispatch_result" where
  "ServeHttp_request post_ok req state =
     (if path req = ''/status'' then route_status state
      else if path req = ''/open'' then route_open post_ok req state
      else if path req = ''/eval'' then route_eval post_ok req state
      else if path req = ''/input'' then route_input post_ok req state
      else if path req = ''/frame'' then route_frame state
      else if path req = ''/quit'' then route_quit post_ok state
      else \<lparr>response = HttpResponse 404 ''text/plain'' body_routes, posted = None,
            new_state = state\<rparr>)"

subsection \<open>Callbacks of the engine\<close>

datatype PaintElementType = PET_VIEW | PET_POPUP

text \<open>
  \<open>OnPaint\<close>. \<open>buffer\<close> is a pointer: \<open>None\<close> is \<open>nullptr\<close>, and \<open>Some m\<close> gives the
  byte \<open>m i\<close> at \<open>src + i\<close>; \<open>assign(src, src + bytes)\<close> copies the first \<open>bytes\<close> of
  them. \<open>width\<close> and \<open>height\<close> are \<open>int\<close>s, 32-bit words read as signed.
\<close>

definition OnPaint ::
  "PaintElementType \<Rightarrow> (nat \<Rightarrow> u8) option \<Rightarrow> 32 word \<Rightarrow> 32 word \<Rightarrow> SharedState \<Rightarrow> SharedState" where
  "OnPaint type buffer width height state =
     (case buffer of
        None \<Rightarrow> state
      | Some src \<Rightarrow>
          if type \<noteq> PET_VIEW \<or> sint width \<le> 0 \<or> sint height \<le> 0 then state
          else (let bytes = (nat (sint width) * nat (sint height) * 4) mod 2 ^ 64
                in state\<lparr>frame_capture := True,
                         frame_width := width,
                         frame_height := height,
                         frame_seq := frame_seq state + 1,
                         frame_bgra := map src [0..<bytes]\<rparr>))"

definition OnTitleChange :: "string \<Rightarrow> SharedState \<Rightarrow> SharedState" where
  "OnTitleChange t state = SetTitle state t"

definition OnBeforeClose :: "SharedState \<Rightarrow> SharedState" where
  "OnBeforeClose state = SetRunning state False"

subsection \<open>Start-up and runs\<close>

text \<open>
  \<open>main\<close> builds the record from the parsed arguments; \<open>ParseArgs\<close> ends by raising
  the view size to at least 320 by 200 (\<open>std::max\<close> on \<open>int\<close>).
\<close>

record Args =
  args_bind_addr :: string
  args_start_url :: string
  args_view_width :: "32 word"
  args_view_height :: "32 word"

definition max_int32 :: "32 word \<Rightarrow> 32 word \<Rightarrow> 32 word" where
  "max_int32 a b = (if sint a < sint b then b else a)"

definition initial_state :: "Args \<Rightarrow> SharedState" where
  "initial_state args =
     \<lparr>running = True,
      bind_addr = args_bind_addr args,
      current_url = args_start_url args,
      title = ''ReduxOS CEF Host Bridge (OSR)'',
      last_error = [],
      last_ipc = [],
      open_requests = 0,
      eval_requests = 0,
      input_requests = 0,
      frame_capture = False,
      frame_width = max_int32 320 (args_view_width args),
      frame_height = max_int32 200 (args_view_height args),
      frame_seq = 0,
      frame_bgra = []\<rparr>"

text \<open>
  Everything that touches the record after start-up: a parsed request handled by the
  listener, a task executed on the control thread, the engine's callbacks, an error
  recorded by the listener while it sets up its socket, and \<open>SetRunning(state, false)\<close>
  when the message loop has returned.
\<close>

datatype event =
    Request bool HttpRequest
  | TaskRun bool task
  | Paint PaintElementType "(nat \<Rightarrow> u8) option" "32 word" "32 word"
  | TitleChange string
  | BeforeClose
  | ListenerError string
  | LoopExit

fun step :: "event \<Rightarrow> SharedState \<Rightarrow> SharedState" where
  "step (Request post_ok req) state = new_state (ServeHttp_request post_ok req state)"
| "step (TaskRun ready t) state = Execute ready t state"
| "step (Paint type buffer width height) state = OnPaint type buffer width height state"
| "step (TitleChange t) state = OnTitleChange t state"
| "step BeforeClose state = OnBeforeClose state"
| "step (ListenerError err) state = SetError state err"
| "step LoopExit state = SetRunning state False"

fun run :: "event list \<Rightarrow> SharedState \<Rightarrow> SharedState" where
  "run [] state = state"
| "run (e # es) state = run es (step e state)"

fun is_paint :: "event \<Rightarrow> bool" where
  "is_paint (Paint type buffer width height) = True"
| "is_paint e = False"

subsection \<open>Predicates used to state the properties\<close>

text \<open>
  \<open>frame_invariant\<close> is the invariant of the frame fields; \<open>frame_ok\<close> is the stronger
  fact that start-up and the paint callback establish. \<open>same_frame\<close> and
  \<open>counters_step\<close> relate the record before and after one operation.
\<close>

definition frame_invariant :: "SharedState \<Rightarrow> bool" where
  "frame_invariant s =
     (frame_capture s \<longrightarrow>
        unat (frame_width s) * unat (frame_height s) * 4 \<le> length (frame_bgra s))"

definition frame_ok :: "SharedState \<Rightarrow> bool" where
  "frame_ok s =
     (0 < sint (frame_width s) \<and> 0 < sint (frame_height s) \<and>
      (if frame_capture s
       then length (frame_bgra s) = unat (frame_width s) * unat (frame_height s) * 4
       else frame_bgra s = []))"

definition same_frame :: "SharedState \<Rightarrow> SharedState \<Rightarrow> bool" where
  "same_frame s t =
     (frame_capture t = frame_capture s \<and> frame_width t = frame_width s \<and>
      frame_height t = frame_height s \<and> frame_bgra t = frame_bgra s)"

definition counters_step :: "SharedState \<Rightarrow> SharedState \<Rightarrow> bool" where
  "counters_step s t =
     ((open_requests t = open_requests s \<or> open_requests t = open_requests s + 1) \<and>
      (eval_requests t = eval_requests s \<or> eval_requests t = eval_requests s + 1) \<and>
      (input_requests t = input_requests s \<or> input_requests t = input_requests s + 1) \<and>
      (frame_seq t = frame_seq s \<or> frame_seq t = frame_seq s + 1) \<and>
      (running t \<longrightarrow> running s))"

text \<open>Pixel \<open>i\<close> of a BGRA buffer as the three bytes red, green, blue.\<close>

definition pixel_rgb :: "u8 list \<Rightarrow> nat \<Rightarrow> string" where
  "pixel_rgb bgra i =
     [byte_char (bgra ! (4 * i + 2)), byte_char (bgra ! (4 * i + 1)), byte_char (bgra ! (4 * i))]"

text \<open>
  A decimal numeral as a reader of the image header takes it: digits only, no leading
  zero but for \<open>0\<close> itself, and the number it denotes.
\<close>

definition decimal_value :: "string \<Rightarrow> nat" where
  "decimal_value ds = foldl (\<lambda>a c. 10 * a + ((of_char c :: nat) - 48)) 0 ds"

definition decimal_numeral :: "string \<Rightarrow> bool" where
  "decimal_numeral ds =
     (ds \<noteq> [] \<and> list_all (\<lambda>c. (48::nat) \<le> of_char c \<and> (of_char c :: nat) \<le> 57) ds
      \<and> (ds = ''0'' \<or> hd ds \<noteq> CHR ''0''))"

text \<open>The values of \<open>type\<close> that \<open>/input\<close> acts on.\<close>

definition known_input_types :: "string set" where
  "known_input_types =
     {''click'', ''scroll'', ''text'', ''key'', ''back'', ''forward'', ''reload''}"

subsection \<open>Sample inputs\<close>

definition example_args :: Args where
  "example_args =
     \<lparr>args_bind_addr = ''127.0.0.1:37820'', args_start_url = ''https://www.google.com'',
      args_view_width = 1024, args_view_height = 640\<rparr>"

text \<open>A request without headers or body whose query string is \<open>q\<close>.\<close>

definition example_request :: "string \<Rightarrow> string \<Rightarrow> HttpRequest" where
  "example_request p q =
     \<lparr>http_method = ''get'', path = p, query = ParseUrlEncoded q, headers = Map.empty,
      form = Map.empty, body = []\<rparr>"

text \<open>Two BGRA pixels: a 2 by 1 frame.\<close>

definition example_buffer :: "nat \<Rightarrow> u8" where
  "example_buffer i = (if i < 8 then [0x10, 0x20, 0x30, 0xFF, 0x40, 0x50, 0x60, 0xFF] ! i else 0)"

definition paint_event :: event where
  "paint_event = Paint PET_VIEW (Some example_buffer) 2 1"

definition painted_state :: SharedState where
  "painted_state = run [paint_event] (initial_state example_args)"

definition open_event :: event where
  "open_event = Request True (example_request ''/open'' ''url=x'')"

section \<open>Properties\<close>

subsection \<open>Words\<close>

lemma pos_sint_unat:
  fixes w :: "32 word"
  assumes "0 < sint w"
  shows "nat (sint w) = unat w" and "unat w < 2 ^ 31" and "0 < unat w"
proof -
  have "sint w < 2 ^ 31" using sint_lt [of w] by simp
  have "uint w = take_bit 32 (sint w)" using uint_sint [of w] by simp
  also have "\<dots> = sint w"
  proof (rule take_bit_int_eq_self)
    show "0 \<le> sint w" using assms by simp
    have "(2::int) ^ 31 < 2 ^ 32" by simp
    then show "sint w < 2 ^ 32" using \<open>sint w < 2 ^ 31\<close> by (rule order_less_trans [rotated])
  qed
  finally have "sint w = uint w" by simp
  then show "nat (sint w) = unat w" by simp
  then have u: "int (unat w) = sint w" using assms by linarith
  have "int (unat w) < 2147483648" using u \<open>sint w < 2 ^ 31\<close> by simp
  then have "unat w < 2147483648" by linarith
  then show "unat w < 2 ^ 31" by simp
  show "0 < unat w" using u assms by linarith
qed

lemma no_wrap:
  fixes w h :: "32 word"
  assumes "0 < sint w" "0 < sint h"
  shows "unat w * unat h * 4 < 2 ^ 64" and "0 < unat w * unat h * 4"
proof -
  have a: "unat w < 2 ^ 31" "unat h < 2 ^ 31" "0 < unat w" "0 < unat h"
    using assms pos_sint_unat by auto
  have "unat w * unat h < 2 ^ 31 * 2 ^ 31"
    using a by (intro mult_strict_mono) auto
  then show "unat w * unat h * 4 < 2 ^ 64" by (simp add: mult.commute)
  show "0 < unat w * unat h * 4" using a by simp
qed

lemma max_int32_pos: "0 < sint (max_int32 320 w)" "0 < sint (max_int32 200 w)"
  by (auto simp: max_int32_def)

lemma half_as_int_eq: "half_as_int w = int (unat w div 2)"
proof -
  have d: "uint (w div 2) = uint w div 2" by (simp add: uint_div)
  have "uint w < 2 ^ 32" using uint_bounded [of w] by simp
  then have "uint w < 4294967296" by simp
  then have "uint w div 2 < 2147483648" by linarith
  then have b: "uint (w div 2) < 2 ^ 31" using d by simp
  have "sint (w div 2) = signed_take_bit 31 (uint (w div 2))" by (simp add: sint_uint)
  also have "\<dots> = uint (w div 2)"
  proof (rule signed_take_bit_int_eq_self)
    have "(0::int) \<le> uint (w div 2)" by simp
    moreover have "- (2 ^ 31) \<le> (0::int)" by simp
    ultimately show "- (2 ^ 31) \<le> uint (w div 2)" by (rule order_trans [rotated])
    show "uint (w div 2) < 2 ^ 31" by (rule b)
  qed
  finally have "sint (w div 2) = uint w div 2" using d by simp
  moreover have "int (unat w div 2) = uint w div 2" by (simp add: zdiv_int)
  ultimately show ?thesis by (simp add: half_as_int_def)
qed

lemma word_inc_le:
  fixes c d :: u64
  assumes "d = c \<or> d = c + 1" and "unat c + 1 < 2 ^ 64"
  shows "unat c \<le> unat d \<and> unat d \<le> unat c + 1"
proof -
  have "unat (c + 1) = unat c + 1"
    using assms(2) by (simp add: unat_word_ariths)
  then show ?thesis using assms(1) by auto
qed

subsection \<open>What one operation leaves alone\<close>

lemma same_frame_trans: "same_frame s t \<Longrightarrow> same_frame t u \<Longrightarrow> same_frame s u"
  by (simp add: same_frame_def)

lemma post_checked_frame: "same_frame s (new_state (post_checked p t err b s))"
  by (simp add: post_checked_def SetError_def same_frame_def)

lemma request_frame: "same_frame s (new_state (ServeHttp_request p req s))"
proof -
  have pc: "\<And>t err b c. same_frame s c \<Longrightarrow> same_frame s (new_state (post_checked p t err b c))"
    using post_checked_frame same_frame_trans by blast
  have r: "same_frame s s" by (simp add: same_frame_def)
  have c1: "same_frame s (s\<lparr>open_requests := open_requests s + 1\<rparr>)"
    and c2: "same_frame s (s\<lparr>eval_requests := eval_requests s + 1\<rparr>)"
    and c3: "same_frame s (s\<lparr>input_requests := input_requests s + 1\<rparr>)"
    by (simp_all add: same_frame_def)
  show ?thesis
    by (simp add: ServeHttp_request_def route_status_def route_open_def route_eval_def
        route_input_def route_frame_def route_quit_def Let_def pc r c1 c2 c3)
qed

lemma step_not_paint_frame: "\<not> is_paint e \<Longrightarrow> same_frame s (step e s)"
proof (cases e)
  case (Request p req)
  then show ?thesis using request_frame by simp
next
  case (TaskRun ready t)
  then show ?thesis
    by (cases t) (simp_all add: same_frame_def SetError_def SetCurrentUrl_def SetRunning_def)
qed (simp_all add: same_frame_def OnTitleChange_def SetTitle_def OnBeforeClose_def
      SetRunning_def SetError_def)

lemma OnPaint_cases:
  "OnPaint ty buf w h s = s \<or>
   (\<exists>src. 0 < sint w \<and> 0 < sint h \<and>
      OnPaint ty buf w h s =
        s\<lparr>frame_capture := True, frame_width := w, frame_height := h,
          frame_seq := frame_seq s + 1,
          frame_bgra := map src [0..<unat w * unat h * 4]\<rparr>)"
proof (cases "buf = None \<or> ty \<noteq> PET_VIEW \<or> sint w \<le> 0 \<or> sint h \<le> 0")
  case True
  then show ?thesis by (auto simp: OnPaint_def split: option.splits)
next
  case False
  then obtain src where b: "buf = Some src" by auto
  from False have p: "0 < sint w" "0 < sint h" "ty = PET_VIEW" by auto
  have "(nat (sint w) * nat (sint h) * 4) mod 2 ^ 64 = unat w * unat h * 4"
    using p pos_sint_unat(1) no_wrap(1) [of w h] by simp
  then show ?thesis using b p by (auto simp: OnPaint_def Let_def)
qed

lemma post_checked_counters:
  "counters_step s c \<Longrightarrow> counters_step s (new_state (post_checked p t err b c))"
  by (simp add: post_checked_def SetError_def counters_step_def)

lemma request_counters: "counters_step s (new_state (ServeHttp_request p req s))"
proof -
  have r: "counters_step s s" by (simp add: counters_step_def)
  have c1: "counters_step s (s\<lparr>open_requests := open_requests s + 1\<rparr>)"
    and c2: "counters_step s (s\<lparr>eval_requests := eval_requests s + 1\<rparr>)"
    and c3: "counters_step s (s\<lparr>input_requests := input_requests s + 1\<rparr>)"
    by (simp_all add: counters_step_def)
  show ?thesis
    by (simp add: ServeHttp_request_def route_status_def route_open_def route_eval_def
        route_input_def route_frame_def route_quit_def Let_def post_checked_counters r c1 c2 c3)
qed

lemma step_counters: "counters_step s (step e s)"
proof (cases e)
  case (Request p req)
  then show ?thesis using request_counters by simp
next
  case (TaskRun ready t)
  then show ?thesis
    by (cases t) (simp_all add: counters_step_def SetError_def SetCurrentUrl_def SetRunning_def)
next
  case (Paint ty buf w h)
  then show ?thesis using OnPaint_cases [of ty buf w h s] by (auto simp: counters_step_def)
qed (simp_all add: counters_step_def OnTitleChange_def SetTitle_def OnBeforeClose_def
      SetRunning_def SetError_def)

lemma run_append: "run (es1 @ es2) s = run es2 (run es1 s)"
  by (induction es1 arbitrary: s) simp_all

subsection \<open>The frame fields along a run\<close>

lemma frame_ok_initial: "frame_ok (initial_state a)"
  by (simp add: frame_ok_def initial_state_def max_int32_pos)

lemma frame_ok_step: "frame_ok s \<Longrightarrow> frame_ok (step e s)"
proof (cases "is_paint e")
  case False
  assume "frame_ok s"
  with step_not_paint_frame [OF False, of s] show ?thesis
    by (simp add: frame_ok_def same_frame_def)
next
  case True
  assume ok: "frame_ok s"
  from True obtain ty buf w h where e: "e = Paint ty buf w h" by (cases e) auto
  from OnPaint_cases [of ty buf w h s] show ?thesis
    using ok e by (auto simp: frame_ok_def)
qed

lemma frame_ok_run: "frame_ok s \<Longrightarrow> frame_ok (run es s)"
  by (induction es arbitrary: s) (simp_all add: frame_ok_step)

lemma frame_invariant_step: "frame_invariant s \<Longrightarrow> frame_invariant (step e s)"
proof (cases "is_paint e")
  case False
  assume "frame_invariant s"
  with step_not_paint_frame [OF False, of s] show ?thesis
    by (simp add: frame_invariant_def same_frame_def)
next
  case True
  assume ok: "frame_invariant s"
  from True obtain ty buf w h where e: "e = Paint ty buf w h" by (cases e) auto
  from OnPaint_cases [of ty buf w h s] show ?thesis
    using ok e by (auto simp: frame_invariant_def)
qed

lemma frame_ok_invariant: "frame_ok s \<Longrightarrow> frame_invariant s"
  by (simp add: frame_ok_def frame_invariant_def)

lemma no_paint_run: "\<forall>e\<in>set es. \<not> is_paint e \<Longrightarrow> same_frame s (run es s)"
proof (induction es arbitrary: s)
  case Nil
  then show ?case by (simp add: same_frame_def)
next
  case (Cons e es)
  then have "same_frame s (step e s)" "same_frame (step e s) (run es (step e s))"
    using step_not_paint_frame by auto
  then show ?case using same_frame_trans by auto
qed

lemma expected_bytes_ok:
  "frame_ok s \<Longrightarrow> expected_bytes (frame_width s) (frame_height s)
     = unat (frame_width s) * unat (frame_height s) * 4"
  using no_wrap(1) [of "frame_width s" "frame_height s"]
  by (simp add: expected_bytes_def frame_ok_def)

lemma route_frame_503_iff:
  assumes "frame_ok s"
  shows "resp_status (response (route_frame s)) = 503 \<longleftrightarrow> \<not> frame_capture s"
proof -
  have nz: "frame_width s \<noteq> 0" "frame_height s \<noteq> 0"
    using assms by (auto simp: frame_ok_def)
  have pos: "0 < unat (frame_width s) * unat (frame_height s) * 4"
    using assms no_wrap(2) [of "frame_width s" "frame_height s"] by (simp add: frame_ok_def)
  show ?thesis
    using assms nz pos expected_bytes_ok [OF assms]
    by (cases "frame_capture s")
       (auto simp: route_frame_def Let_def json_response_def frame_ok_def)
qed

subsection \<open>The frame encoder\<close>

lemma frame_loop_pixels:
  "k \<le> n \<Longrightarrow>
   frame_loop (4 * k) (4 * n) bgra out = out @ concat (map (pixel_rgb bgra) [k..<n])"
proof (induction "n - k" arbitrary: k out)
  case 0
  then show ?case by (simp add: frame_loop.simps)
next
  case (Suc d)
  then have lt: "k < n" and d: "d = n - Suc k" and le: "Suc k \<le> n" by auto
  have "frame_loop (4 * k) (4 * n) bgra out
        = frame_loop (4 * Suc k) (4 * n) bgra (out @ pixel_rgb bgra k)"
    using lt by (subst frame_loop.simps) (simp add: pixel_rgb_def add.commute)
  also have "\<dots> = (out @ pixel_rgb bgra k) @ concat (map (pixel_rgb bgra) [Suc k..<n])"
    using Suc.hyps(1) [OF d le] .
  also have "\<dots> = out @ concat (map (pixel_rgb bgra) [k..<n])"
    using lt by (simp add: upt_conv_Cons)
  finally show ?case .
qed

lemma route_frame_body:
  assumes "frame_width s \<noteq> 0" and "frame_height s \<noteq> 0"
    and "unat (frame_width s) * unat (frame_height s) * 4 < 2 ^ 64"
    and "unat (frame_width s) * unat (frame_height s) * 4 \<le> length (frame_bgra s)"
  shows "route_frame s =
           \<lparr>response = HttpResponse 200 ''image/x-portable-pixmap''
              (ppm_header (frame_width s) (frame_height s)
               @ concat (map (pixel_rgb (frame_bgra s))
                           [0..<unat (frame_width s) * unat (frame_height s)])),
            posted = None, new_state = s\<rparr>"
proof -
  let ?n = "unat (frame_width s) * unat (frame_height s)"
  have e: "expected_bytes (frame_width s) (frame_height s) = 4 * ?n"
    using assms(3) by (simp add: expected_bytes_def)
  have "frame_loop 0 (4 * ?n) (frame_bgra s) (ppm_header (frame_width s) (frame_height s))
        = ppm_header (frame_width s) (frame_height s)
          @ concat (map (pixel_rgb (frame_bgra s)) [0..<?n])"
    using frame_loop_pixels [of 0 ?n] by simp
  then show ?thesis
    using assms e by (simp add: route_frame_def Let_def)
qed

lemma length_pixels: "length (concat (map (pixel_rgb bgra) [0..<n])) = 3 * n"
  by (induction n) (simp_all add: pixel_rgb_def)

subsection \<open>The decimal fields of the image header\<close>

lemma of_char_digit: "d < 10 \<Longrightarrow> (of_char (char_of (48 + d :: nat)) :: nat) = 48 + d"
  by simp

lemma decimal_value_snoc:
  "decimal_value (ds @ [c]) = 10 * decimal_value ds + ((of_char c :: nat) - 48)"
  by (simp add: decimal_value_def)

lemma dec_string_value: "decimal_value (dec_string n) = n"
proof (induction n rule: dec_string.induct)
  case (1 n)
  show ?case
  proof (cases "n < 10")
    case True
    then show ?thesis
      by (subst dec_string.simps) (simp add: decimal_value_def)
  next
    case False
    have m: "n mod 10 < 10" by simp
    have "decimal_value (dec_string n)
          = 10 * decimal_value (dec_string (n div 10))
            + ((of_char (char_of (48 + n mod 10 :: nat)) :: nat) - 48)"
      using False by (subst dec_string.simps) (simp add: decimal_value_snoc)
    also have "\<dots> = 10 * (n div 10) + n mod 10"
      using "1.IH" [OF False] of_char_digit [OF m] by simp
    finally show ?thesis by simp
  qed
qed

lemma dec_string_nonempty: "dec_string n \<noteq> []"
  by (subst dec_string.simps) simp

lemma dec_string_all_digits:
  "list_all (\<lambda>c. (48::nat) \<le> of_char c \<and> (of_char c :: nat) \<le> 57) (dec_string n)"
proof (induction n rule: dec_string.induct)
  case (1 n)
  show ?case
  proof (cases "n < 10")
    case True
    then show ?thesis by (subst dec_string.simps) simp
  next
    case False
    have m: "n mod 10 < 10" by simp
    show ?thesis
      using False "1.IH" [OF False] of_char_digit [OF m]
      by (subst dec_string.simps) simp
  qed
qed

lemma dec_string_hd: "0 < n \<Longrightarrow> hd (dec_string n) \<noteq> CHR ''0''"
proof (induction n rule: dec_string.induct)
  case (1 n)
  show ?case
  proof (cases "n < 10")
    case True
    have "(of_char (hd (dec_string n)) :: nat) = 48 + n"
      using True by (subst dec_string.simps) simp
    then show ?thesis using "1.prems" by auto
  next
    case False
    then have "0 < n div 10" by simp
    from "1.IH" [OF False this] show ?thesis
      using False dec_string_nonempty [of "n div 10"]
      by (subst dec_string.simps) simp
  qed
qed

lemma dec_string_numeral: "decimal_numeral (dec_string n)"
proof (cases "n = 0")
  case True
  then show ?thesis by (simp add: decimal_numeral_def dec_string.simps)
next
  case False
  then show ?thesis
    using dec_string_hd [of n] dec_string_all_digits [of n] dec_string_nonempty [of n]
    by (simp add: decimal_numeral_def)
qed

lemma byte_char_value: "(of_char (byte_char b) :: nat) = unat b"
proof -
  have "unat b < 256" using unsigned_less [of b, where 'a = nat] by simp
  then show ?thesis by (simp add: byte_char_def)
qed

subsection \<open>Facts about the sample inputs\<close>

lemma example_request_path: "path (example_request p q) = p"
  by (simp add: example_request_def)

lemma example_request_form: "form (example_request p q) k = None"
  by (simp add: example_request_def)

lemma example_query_empty: "query (example_request p []) k = None"
  by (simp add: example_request_def ParseUrlEncoded_def ParseUrlEncoded_pair_def)

lemma painted_state_eq:
  "painted_state = (initial_state example_args)
     \<lparr>frame_capture := True, frame_width := 2, frame_height := 1, frame_seq := 1,
      frame_bgra := [0x10, 0x20, 0x30, 0xFF, 0x40, 0x50, 0x60, 0xFF]\<rparr>"
  by (simp add: painted_state_def paint_event_def OnPaint_def example_buffer_def
      initial_state_def upt_rec)

lemma step_open_event: "open_requests (step open_event s) = open_requests s + 1"
  by (simp add: open_event_def ServeHttp_request_def example_request_def route_open_def
      GetParam_def ParseUrlEncoded_def ParseUrlEncoded_pair_def post_checked_def Let_def)

lemma run_open_events:
  "open_requests (run (replicate n open_event) s) = open_requests s + of_nat n"
  by (induction n arbitrary: s) (simp_all add: step_open_event)

subsection \<open>Counters along a run\<close>

lemma run_counter_bounds:
  fixes c :: "SharedState \<Rightarrow> u64"
  assumes st: "\<And>e s. c (step e s) = c s \<or> c (step e s) = c s + 1"
  shows "unat (c s) + length es < 2 ^ 64 \<Longrightarrow>
         unat (c s) \<le> unat (c (run es s)) \<and> unat (c (run es s)) \<le> unat (c s) + length es"
proof (induction es arbitrary: s)
  case Nil
  then show ?case by simp
next
  case (Cons e es)
  have one: "unat (c s) \<le> unat (c (step e s)) \<and> unat (c (step e s)) \<le> unat (c s) + 1"
    using word_inc_le [OF st [of e s]] Cons.prems by simp
  then have "unat (c (step e s)) + length es < 2 ^ 64" using Cons.prems by simp
  from Cons.IH [OF this] one show ?case by simp
qed

lemma run_counter_mono:
  fixes c :: "SharedState \<Rightarrow> u64"
  assumes st: "\<And>e s. c (step e s) = c s \<or> c (step e s) = c s + 1"
    and z: "c (initial_state a) = 0"
    and len: "length (es1 @ es2) < 2 ^ 64"
  shows "c (run es1 (initial_state a)) \<le> c (run (es1 @ es2) (initial_state a))"
proof -
  let ?s1 = "run es1 (initial_state a)"
  have "unat (c (initial_state a)) + length es1 < 2 ^ 64" using z len by simp
  from run_counter_bounds [where c = c, OF st this]
  have "unat (c ?s1) \<le> length es1" using z by simp
  then have "unat (c ?s1) + length es2 < 2 ^ 64" using len by simp
  from run_counter_bounds [where c = c, OF st this]
  show ?thesis by (simp add: run_append word_le_nat_alt)
qed

lemma run_running: "running (run es s) \<Longrightarrow> running s"
proof (induction es arbitrary: s)
  case Nil
  then show ?case by simp
next
  case (Cons e es)
  then have "running (step e s)" by simp
  then show ?case using step_counters [of s e] by (simp add: counters_step_def)
qed

subsection \<open>The \<open>/input\<close> route\<close>

lemma ToLowerAscii_Nil: "ToLowerAscii t = [] \<longleftrightarrow> t = []"
  by (simp add: ToLowerAscii_def)

lemma ParseIntDefault_empty: "ParseIntDefault [] d = d"
  by (simp add: ParseIntDefault_def)

lemma post_checked_input:
  "input_requests (new_state (post_checked p t err b c)) = input_requests c"
  by (simp add: post_checked_def SetError_def)

lemma route_input_counts:
  "GetParam req ''type'' \<noteq> [] \<Longrightarrow>
   input_requests (new_state (route_input p req s)) = input_requests s + 1"
  by (simp add: route_input_def Let_def ToLowerAscii_Nil post_checked_input)

lemma route_input_empty:
  "GetParam req ''type'' = [] \<Longrightarrow>
   route_input p req s =
     \<lparr>response = json_response 400 body_input_type_invalid, posted = None, new_state = s\<rparr>"
  by (simp add: route_input_def Let_def ToLowerAscii_Nil)

lemma route_input_unknown:
  "ToLowerAscii (GetParam req ''type'') \<notin> known_input_types \<Longrightarrow>
   resp_status (response (route_input p req s)) = 400 \<and> posted (route_input p req s) = None"
  by (simp add: route_input_def Let_def BuildInputScript_def known_input_types_def
      json_response_def)

subsection \<open>Rejected posts\<close>

text \<open>
  \<open>/open\<close>, \<open>/eval\<close> and \<open>/input\<close> answer 500 and record the error when
  \<open>CefPostTask\<close> rejects the task they hand over.
\<close>

lemma post_checked_rejected:
  "response (post_checked False t err b c) = json_response 500 body_post_task_failed
   \<and> last_error (new_state (post_checked False t err b c)) = err"
  by (simp add: post_checked_def SetError_def)

lemma open_post_rejected:
  "path req = ''/open'' \<Longrightarrow> GetParam req ''url'' \<noteq> [] \<Longrightarrow>
   response (ServeHttp_request False req s) = json_response 500 body_post_task_failed
   \<and> last_error (new_state (ServeHttp_request False req s)) = ''open failed: CefPostTask error''"
  by (simp add: ServeHttp_request_def route_open_def Let_def post_checked_rejected)

lemma eval_post_rejected:
  "path req = ''/eval'' \<Longrightarrow> GetParam req ''js'' \<noteq> [] \<Longrightarrow>
   response (ServeHttp_request False req s) = json_response 500 body_post_task_failed
   \<and> last_error (new_state (ServeHttp_request False req s)) = ''eval failed: CefPostTask error''"
  by (simp add: ServeHttp_request_def route_eval_def Let_def post_checked_rejected)

lemma input_post_rejected:
  assumes "path req = ''/input''" and "posted (ServeHttp_request False req s) = Some t"
  shows "response (ServeHttp_request False req s) = json_response 500 body_post_task_failed
         \<and> last_error (new_state (ServeHttp_request False req s))
             \<in> {''input click failed: CefPostTask error'',
                ''input scroll failed: CefPostTask error'', ''input failed: CefPostTask error''}"
proof -
  have r: "ServeHttp_request False req s = route_input False req s"
    using assms(1) by (simp add: ServeHttp_request_def)
  show ?thesis
    using assms(2) unfolding r
    by (simp add: route_input_def Let_def post_checked_rejected split: if_splits)
qed

subsection \<open>What \<open>UrlDecode\<close> does with well-formed input\<close>

text \<open>
  A \<open>%\<close> followed by two hexadecimal digits becomes the byte they denote, a \<open>+\<close>
  becomes a space, and a \<open>%\<close> with fewer than two characters after it is copied.
\<close>

lemma digit_char_plain:
  assumes "digit_value c = Some d"
  shows "c \<noteq> CHR 0x00" and "\<not> isspace_c c" and "c \<noteq> CHR ''-''" and "c \<noteq> CHR ''+''"
proof -
  let ?n = "of_char c :: nat"
  have r: "48 \<le> ?n" using assms by (simp add: digit_value_def Let_def split: if_splits)
  show "c \<noteq> CHR 0x00" using r by auto
  show "c \<noteq> CHR ''-''" using r by auto
  show "c \<noteq> CHR ''+''" using r by auto
  show "\<not> isspace_c c" using r by (auto simp: isspace_c_def)
qed

lemma strtol_hex_pair:
  assumes "digit_value x = Some a" and "a < 16" and "digit_value y = Some b" and "b < 16"
  shows "strtol 16 (c_str [x, y]) = (int (16 * a + b), 2)"
proof -
  have c: "c_str [x, y] = [x, y]"
    using digit_char_plain(1) [OF assms(1)] digit_char_plain(1) [OF assms(3)]
    by (simp add: c_str_def)
  have d: "is_digit 16 x" "is_digit 16 y" using assms by (simp_all add: is_digit_def)
  have v: "digits_value 16 [x, y] = 16 * a + b" using assms by (simp add: digits_value_def)
  have m: "min (int (16 * a + b)) LONG_MAX = int (16 * a + b)"
    using assms(2,4) by (simp add: LONG_MAX_def)
  show ?thesis
    unfolding c
    using digit_char_plain(2-4) [OF assms(1)] d v m
    by (simp add: strtol_def has_hex_prefix_def Let_def)
qed

lemma UrlDecode_hex_pair:
  assumes "digit_value x = Some a" and "a < 16" and "digit_value y = Some b" and "b < 16"
  shows "UrlDecode (CHR ''%'' # x # y # rest) = char_of (16 * a + b) # UrlDecode rest"
proof -
  have c: "c_str [x, y] = [x, y]"
    using digit_char_plain(1) [OF assms(1)] digit_char_plain(1) [OF assms(3)]
    by (simp add: c_str_def)
  have ok: "hex_pair_ok [x, y]"
    using strtol_hex_pair [OF assms] by (simp add: hex_pair_ok_def c)
  have "hex_pair_byte [x, y] = char_of (int (16 * a + b) mod 256)"
    using strtol_hex_pair [OF assms] by (simp add: hex_pair_byte_def)
  also have "\<dots> = char_of (int (16 * a + b))" by (rule char_of_mod_256)
  also have "\<dots> = char_of (16 * a + b)" by (rule char_of_nat)
  finally show ?thesis using ok by simp
qed

lemma UrlDecode_plus: "UrlDecode (CHR ''+'' # rest) = CHR 0x20 # UrlDecode rest"
  by (cases rest rule: UrlDecode.cases) simp_all

lemma UrlDecode_truncated:
  "UrlDecode [CHR ''%''] = [CHR ''%'']" "UrlDecode [CHR ''%'', x] = CHR ''%'' # UrlDecode [x]"
  by simp_all

section \<open>The claims\<close>

text \<open>
  C1. For every route that posts a command (\<open>/open\<close>, \<open>/eval\<close>, \<open>/input\<close>, \<open>/quit\<close>),
  a post rejected by the task queue gives the response 500 and the error text in the
  last-error field. \<open>/quit\<close> does not do this. The request \<open>/quit\<close> at start-up, with
  \<open>CefPostTask\<close> returning false: the response is the 200 acknowledgement, a \<open>QuitTask\<close>
  was handed over, and the last-error field is still empty.
\<close>

theorem quit_rejected_post_unreported:
  "response (ServeHttp_request False (example_request ''/quit'' []) (initial_state example_args))
     = json_response 200 (body_queued ''quit'')
   \<and> posted (ServeHttp_request False (example_request ''/quit'' []) (initial_state example_args))
     = Some QuitTask
   \<and> last_error (new_state (ServeHttp_request False (example_request ''/quit'' [])
        (initial_state example_args))) = []"
  by (simp add: ServeHttp_request_def example_request_def route_quit_def initial_state_def)

text \<open>
  C2. \<open>UrlDecode\<close>: \<open>%XY\<close> with two hexadecimal digits decodes to the byte, \<open>+\<close> to a
  space, and a malformed percent sequence passes through unchanged. The check of the two
  characters is \<open>strtol\<close>'s, which also accepts a sign (and white space) in front of a
  digit: \<open>%-1\<close> decodes to the single byte \<open>0xFF\<close> and \<open>%+1\<close> to the byte \<open>0x01\<close>
  instead of passing through. (The parts on hexadecimal digits, on \<open>+\<close> and on truncated
  sequences hold: \<open>UrlDecode_hex_pair\<close>, \<open>UrlDecode_plus\<close>, \<open>UrlDecode_truncated\<close>.)
\<close>

theorem UrlDecode_signed_hex_decoded:
  "UrlDecode ''%-1'' = [CHR 0xFF] \<and> UrlDecode ''%+1'' = [CHR 0x01]
   \<and> UrlDecode ''%-1'' \<noteq> ''%-1''"
  by code_simp

text \<open>
  C3. In every state \<open>s\<close> reached from start-up, a \<open>/frame\<close> request is answered 503
  exactly when the frame-capture flag is unset or the stored buffer is shorter than
  width times height times 4; and when no paint callback was delivered on the way to
  \<open>s\<close>, the answer is 503.
\<close>

theorem frame_not_ready_iff:
  assumes "s = run es (initial_state a)" and "path req = ''/frame''"
  shows "(resp_status (response (ServeHttp_request post_ok req s)) = 503 \<longleftrightarrow>
            (\<not> frame_capture s \<or>
             length (frame_bgra s) < unat (frame_width s) * unat (frame_height s) * 4))
         \<and> ((\<forall>e\<in>set es. \<not> is_paint e) \<longrightarrow>
              resp_status (response (ServeHttp_request post_ok req s)) = 503)"
proof -
  have ok: "frame_ok s" using assms(1) frame_ok_run frame_ok_initial by simp
  have r: "ServeHttp_request post_ok req s = route_frame s"
    using assms(2) by (simp add: ServeHttp_request_def)
  have a: "resp_status (response (route_frame s)) = 503 \<longleftrightarrow> \<not> frame_capture s"
    using route_frame_503_iff [OF ok] .
  have b: "frame_capture s \<Longrightarrow>
             \<not> length (frame_bgra s) < unat (frame_width s) * unat (frame_height s) * 4"
    using ok by (simp add: frame_ok_def)
  have c: "\<forall>e\<in>set es. \<not> is_paint e \<Longrightarrow> \<not> frame_capture s"
    using no_paint_run [of es "initial_state a"] assms(1)
    by (simp add: same_frame_def initial_state_def)
  show ?thesis using r a b c by auto
qed

text \<open>
  Witness for C3: at start-up \<open>/frame\<close> is answered 503; after the sample paint callback
  it is not.
\<close>

theorem frame_not_ready_iff_witness:
  "resp_status (response (ServeHttp_request True (example_request ''/frame'' [])
      (initial_state example_args))) = 503
   \<and> resp_status (response (ServeHttp_request True (example_request ''/frame'' []) painted_state))
       \<noteq> 503"
proof -
  have a: "initial_state example_args = run [] (initial_state example_args)" by simp
  have b: "painted_state = run [paint_event] (initial_state example_args)"
    by (simp add: painted_state_def)
  show ?thesis
    using frame_not_ready_iff [OF a example_request_path, of True "[]"]
      frame_not_ready_iff [OF b example_request_path, of True "[]"]
    by (simp add: painted_state_eq initial_state_def)
qed

text \<open>
  C4. For every stored frame (a state \<open>s\<close> reached from start-up whose frame-capture flag
  is set) of width \<open>w\<close> and height \<open>h\<close> with a buffer of at least \<open>w * h * 4\<close> bytes, a
  \<open>/frame\<close> request is answered 200 with the body: the header, which is the format tag
  \<open>P6\<close>, a line feed, the width, a space, the height, a line feed, \<open>255\<close> and a line
  feed, where width and height are written as decimal numerals denoting \<open>w\<close> and \<open>h\<close>;
  then exactly \<open>w * h\<close> pixels of three bytes, pixel \<open>i\<close> being the bytes \<open>4i + 2\<close>,
  \<open>4i + 1\<close>, \<open>4i\<close> of the buffer, each byte with its value kept.
\<close>

theorem stored_frame_body:
  assumes "s = run es (initial_state a)" and "frame_capture s" and "path req = ''/frame''"
    and "unat (frame_width s) * unat (frame_height s) * 4 \<le> length (frame_bgra s)"
  shows "response (ServeHttp_request post_ok req s) =
           HttpResponse 200 ''image/x-portable-pixmap''
             (''P6'' @ [CHR 0x0A] @ dec_string (unat (frame_width s)) @ '' ''
              @ dec_string (unat (frame_height s)) @ [CHR 0x0A] @ ''255'' @ [CHR 0x0A]
              @ concat (map (pixel_rgb (frame_bgra s))
                          [0..<unat (frame_width s) * unat (frame_height s)]))
         \<and> decimal_numeral (dec_string (unat (frame_width s)))
         \<and> decimal_value (dec_string (unat (frame_width s))) = unat (frame_width s)
         \<and> decimal_numeral (dec_string (unat (frame_height s)))
         \<and> decimal_value (dec_string (unat (frame_height s))) = unat (frame_height s)
         \<and> (of_char (byte_char b) :: nat) = unat b
         \<and> length (resp_body (response (ServeHttp_request post_ok req s))) =
             9 + length (dec_string (unat (frame_width s)))
             + length (dec_string (unat (frame_height s)))
             + 3 * (unat (frame_width s) * unat (frame_height s))"
proof -
  have ok: "frame_ok s" using assms(1) frame_ok_run frame_ok_initial by simp
  then have nz: "frame_width s \<noteq> 0" "frame_height s \<noteq> 0" by (auto simp: frame_ok_def)
  have nw: "unat (frame_width s) * unat (frame_height s) * 4 < 2 ^ 64"
    using ok no_wrap(1) [of "frame_width s" "frame_height s"] by (simp add: frame_ok_def)
  have "ServeHttp_request post_ok req s = route_frame s"
    using assms(3) by (simp add: ServeHttp_request_def)
  then show ?thesis
    using route_frame_body [OF nz nw assms(4)]
    by (simp add: length_pixels ppm_header_def dec_string_numeral dec_string_value
        byte_char_value)
qed

text \<open>
  Witness for C4: after the paint callback with width 2, height 1 and the 8-byte sample
  buffer, the body is the 11 header bytes and 6 pixel bytes, red, green, blue of each
  pixel.
\<close>

theorem stored_frame_body_witness:
  "response (ServeHttp_request True (example_request ''/frame'' []) painted_state) =
     HttpResponse 200 ''image/x-portable-pixmap''
       (''P6'' @ [CHR 0x0A] @ ''2 1'' @ [CHR 0x0A] @ ''255'' @ [CHR 0x0A]
        @ [CHR 0x30, CHR 0x20, CHR 0x10, CHR 0x60, CHR 0x50, CHR 0x40])
   \<and> length (resp_body (response (ServeHttp_request True (example_request ''/frame'' [])
        painted_state))) = 11 + 6"
proof -
  have b: "painted_state = run [paint_event] (initial_state example_args)"
    by (simp add: painted_state_def)
  have c: "frame_capture painted_state" by (simp add: painted_state_eq)
  have fw: "frame_width painted_state = 2" and fh: "frame_height painted_state = 1"
    and fb: "frame_bgra painted_state = [0x10, 0x20, 0x30, 0xFF, 0x40, 0x50, 0x60, 0xFF]"
    by (simp_all add: painted_state_eq)
  have d: "unat (frame_width painted_state) * unat (frame_height painted_state) * 4
             \<le> length (frame_bgra painted_state)"
    by (simp add: painted_state_eq)
  have e: "''P6'' @ [CHR 0x0A] @ dec_string (unat (2 :: u32)) @ '' ''
           @ dec_string (unat (1 :: u32)) @ [CHR 0x0A] @ ''255'' @ [CHR 0x0A]
           @ concat (map (pixel_rgb [0x10, 0x20, 0x30, 0xFF, 0x40, 0x50, 0x60, 0xFF])
                       [0..<unat (2 :: u32) * unat (1 :: u32)])
           = ''P6'' @ [CHR 0x0A] @ ''2 1'' @ [CHR 0x0A] @ ''255'' @ [CHR 0x0A]
             @ [CHR 0x30, CHR 0x20, CHR 0x10, CHR 0x60, CHR 0x50, CHR 0x40]"
    by code_simp
  have r: "response (ServeHttp_request True (example_request ''/frame'' []) painted_state) =
     HttpResponse 200 ''image/x-portable-pixmap''
       (''P6'' @ [CHR 0x0A] @ ''2 1'' @ [CHR 0x0A] @ ''255'' @ [CHR 0x0A]
        @ [CHR 0x30, CHR 0x20, CHR 0x10, CHR 0x60, CHR 0x50, CHR 0x40])"
    using stored_frame_body [OF b c example_request_path d, of True "[]", THEN conjunct1]
    unfolding fw fh fb e .
  show ?thesis unfolding r by simp
qed

text \<open>
  C5, as stated: every parsed \<open>/input\<close> request increments the input counter. It fails
  for a request without a \<open>type\<close> parameter: the dispatcher answers 400 before it
  counts. At start-up such a request leaves the counter at 0.
\<close>

theorem input_counter_empty_type_counterexample:
  "input_requests (new_state (ServeHttp_request True (example_request ''/input'' [])
      (initial_state example_args)))
   \<noteq> input_requests (initial_state example_args) + 1"
  by (simp add: ServeHttp_request_def example_request_def route_input_def initial_state_def
      GetParam_def ParseUrlEncoded_def ParseUrlEncoded_pair_def ToLowerAscii_def)

text \<open>
  C5, amended: every parsed \<open>/input\<close> request whose \<open>type\<close> parameter is not empty
  increments the input counter, whatever the type and whether or not posting succeeds; a
  request whose \<open>type\<close> is empty or absent leaves the counter as it is; a request whose
  type is unknown or empty is answered 400.
\<close>

theorem input_counter_and_invalid_type:
  assumes "path req = ''/input''"
  shows "(GetParam req ''type'' \<noteq> [] \<longrightarrow>
            input_requests (new_state (ServeHttp_request post_ok req state))
              = input_requests state + 1)
         \<and> (GetParam req ''type'' = [] \<longrightarrow>
            input_requests (new_state (ServeHttp_request post_ok req state))
              = input_requests state)
         \<and> (ToLowerAscii (GetParam req ''type'') \<notin> known_input_types \<longrightarrow>
            resp_status (response (ServeHttp_request post_ok req state)) = 400)"
proof -
  have "ServeHttp_request post_ok req state = route_input post_ok req state"
    using assms by (simp add: ServeHttp_request_def)
  then show ?thesis
    using route_input_counts [of req post_ok state] route_input_empty [of req post_ok state]
      route_input_unknown [of req post_ok state]
    by simp
qed

text \<open>
  Witness for C5: \<open>/input?type=bogus\<close> at start-up is counted and answered 400.
\<close>

theorem input_counter_and_invalid_type_witness:
  "input_requests (new_state (ServeHttp_request True (example_request ''/input'' ''type=bogus'')
      (initial_state example_args))) = 1
   \<and> resp_status (response (ServeHttp_request True (example_request ''/input'' ''type=bogus'')
      (initial_state example_args))) = 400"
proof -
  have g: "GetParam (example_request ''/input'' ''type=bogus'') ''type'' = ''bogus''"
    by (simp add: GetParam_def example_request_def ParseUrlEncoded_def ParseUrlEncoded_pair_def)
  have u: "ToLowerAscii ''bogus'' \<notin> known_input_types"
    by (simp add: known_input_types_def ToLowerAscii_def tolower_c_def)
  show ?thesis
    using input_counter_and_invalid_type [OF example_request_path, of "''type=bogus''" True
        "initial_state example_args"] g u
    by (simp add: initial_state_def)
qed

text \<open>
  C6. For every parsed \<open>/eval\<close> request without a \<open>js\<close> parameter the response is 400,
  the eval counter is unchanged (the whole record is) and no task is handed to the control
  thread.
\<close>

theorem eval_missing_js:
  assumes "path req = ''/eval''" and "query req ''js'' = None" and "form req ''js'' = None"
  shows "resp_status (response (ServeHttp_request post_ok req state)) = 400
         \<and> eval_requests (new_state (ServeHttp_request post_ok req state)) = eval_requests state
         \<and> posted (ServeHttp_request post_ok req state) = None
         \<and> new_state (ServeHttp_request post_ok req state) = state"
  using assms by (simp add: ServeHttp_request_def route_eval_def GetParam_def json_response_def)

text \<open>Witness for C6: \<open>/eval\<close> with no parameters at start-up.\<close>

theorem eval_missing_js_witness:
  "resp_status (response (ServeHttp_request True (example_request ''/eval'' [])
      (initial_state example_args))) = 400
   \<and> posted (ServeHttp_request True (example_request ''/eval'' []) (initial_state example_args))
       = None
   \<and> eval_requests (new_state (ServeHttp_request True (example_request ''/eval'' [])
      (initial_state example_args))) = 0"
  using eval_missing_js [OF example_request_path example_query_empty example_request_form,
      of True "initial_state example_args"]
  by (simp add: initial_state_def)

text \<open>
  C7. For every parsed \<open>/input\<close> request with \<open>type=scroll\<close>, the task handed over is a
  scroll \<open>NativeInputTask\<close>; when \<open>x\<close> is not supplied its \<open>x\<close> is half the recorded
  frame width, when \<open>y\<close> is not supplied its \<open>y\<close> is half the recorded frame height,
  and when \<open>delta\<close> is not supplied its delta is 120.
\<close>

theorem scroll_defaults:
  assumes "path req = ''/input''" and "ToLowerAscii (GetParam req ''type'') = ''scroll''"
  shows "\<exists>x y delta.
           posted (ServeHttp_request post_ok req state)
             = Some (NativeInputTask MouseScroll x y delta)
           \<and> (query req ''x'' = None \<and> form req ''x'' = None \<longrightarrow>
                x = int (unat (frame_width state) div 2))
           \<and> (query req ''y'' = None \<and> form req ''y'' = None \<longrightarrow>
                y = int (unat (frame_height state) div 2))
           \<and> (query req ''delta'' = None \<and> form req ''delta'' = None \<longrightarrow> delta = 120)"
proof -
  have r: "ServeHttp_request post_ok req state = route_input post_ok req state"
    using assms(1) by (simp add: ServeHttp_request_def)
  have g: "\<And>k. query req k = None \<and> form req k = None \<Longrightarrow> GetParam req k = []"
    by (simp add: GetParam_def)
  show ?thesis
    unfolding r using assms(2) g
    by (auto simp: route_input_def Let_def post_checked_def half_as_int_eq
        ParseIntDefault_empty)
qed

text \<open>
  Witness for C7: \<open>/input?type=scroll\<close> at start-up, where the frame size is 1024 by
  640.
\<close>

theorem scroll_defaults_witness:
  "posted (ServeHttp_request True (example_request ''/input'' ''type=scroll'')
      (initial_state example_args)) = Some (NativeInputTask MouseScroll 512 320 120)"
proof -
  have g: "ToLowerAscii (GetParam (example_request ''/input'' ''type=scroll'') ''type'') = ''scroll''"
    by (simp add: GetParam_def example_request_def ParseUrlEncoded_def ParseUrlEncoded_pair_def
        ToLowerAscii_def tolower_c_def)
  have q: "\<And>k. k \<noteq> ''type'' \<Longrightarrow> query (example_request ''/input'' ''type=scroll'') k = None"
    by (simp add: example_request_def ParseUrlEncoded_def ParseUrlEncoded_pair_def)
  have w: "unat (frame_width (initial_state example_args)) = 1024"
    "unat (frame_height (initial_state example_args)) = 640"
    by (simp_all add: initial_state_def example_args_def max_int32_def)
  show ?thesis
    using scroll_defaults [OF example_request_path g, of True "initial_state example_args"]
    by (auto simp: q example_request_form w)
qed

text \<open>
  C8. The start-up state satisfies the frame invariant (capture flag set implies buffer
  length at least width times height times 4), every operation preserves it from any
  state, and so it holds in every state reached from start-up.
\<close>

theorem frame_invariant_holds:
  "frame_invariant (initial_state a) \<and>
   (frame_invariant s \<longrightarrow> frame_invariant (step e s)) \<and>
   frame_invariant (run es (initial_state a))"
  using frame_invariant_step frame_ok_invariant frame_ok_run frame_ok_initial by blast

text \<open>
  Witness for C8: after the sample paint callback the flag is set and the 8 bytes of the
  2 by 1 frame are there.
\<close>

theorem frame_invariant_holds_witness:
  "frame_capture painted_state
   \<and> unat (frame_width painted_state) * unat (frame_height painted_state) * 4
       \<le> length (frame_bgra painted_state)"
  using frame_invariant_holds [of example_args "initial_state example_args" paint_event
      "[paint_event]"]
  by (simp add: frame_invariant_def painted_state_def [symmetric]) (simp add: painted_state_eq)

text \<open>
  C9, as stated: the request counters never decrease. They are 64-bit unsigned and
  incremented without a check, so the increment at \<open>2 ^ 64 - 1\<close> wraps to 0: after
  \<open>2 ^ 64 - 1\<close> accepted \<open>/open\<close> requests one more lowers the open counter.
\<close>

theorem counter_wraps_counterexample:
  "open_requests (run (replicate 18446744073709551615 open_event @ [open_event])
                    (initial_state example_args))
   < open_requests (run (replicate 18446744073709551615 open_event)
                      (initial_state example_args))"
proof -
  have z: "open_requests (initial_state example_args) = 0" by (simp add: initial_state_def)
  have a: "open_requests (run (replicate 18446744073709551615 open_event)
             (initial_state example_args)) = 18446744073709551615"
    unfolding run_open_events z by simp
  have "open_requests (run (replicate 18446744073709551615 open_event @ [open_event])
          (initial_state example_args)) = 18446744073709551615 + 1"
    unfolding run_append using a by (simp only: run.simps step_open_event)
  also have "\<dots> = (0 :: u64)" by simp
  finally show ?thesis using a by simp
qed

text \<open>
  C9, amended: across every sequence of operations the running flag only goes from true
  to false; every operation leaves each of the three request counters and the frame
  sequence number unchanged or adds one to it (modulo \<open>2 ^ 64\<close>); and along every run of
  fewer than \<open>2 ^ 64\<close> operations from start-up none of the four decreases.
\<close>

theorem running_and_counters_monotone:
  "(running (run es s) \<longrightarrow> running s) \<and>
   counters_step s (step e s) \<and>
   (length (es1 @ es2) < 2 ^ 64 \<longrightarrow>
      open_requests (run es1 (initial_state a))
        \<le> open_requests (run (es1 @ es2) (initial_state a)) \<and>
      eval_requests (run es1 (initial_state a))
        \<le> eval_requests (run (es1 @ es2) (initial_state a)) \<and>
      input_requests (run es1 (initial_state a))
        \<le> input_requests (run (es1 @ es2) (initial_state a)) \<and>
      frame_seq (run es1 (initial_state a))
        \<le> frame_seq (run (es1 @ es2) (initial_state a)))"
proof -
  have s1: "\<And>e s. open_requests (step e s) = open_requests s
                  \<or> open_requests (step e s) = open_requests s + 1"
   and s2: "\<And>e s. eval_requests (step e s) = eval_requests s
                  \<or> eval_requests (step e s) = eval_requests s + 1"
   and s3: "\<And>e s. input_requests (step e s) = input_requests s
                  \<or> input_requests (step e s) = input_requests s + 1"
   and s4: "\<And>e s. frame_seq (step e s) = frame_seq s \<or> frame_seq (step e s) = frame_seq s + 1"
    using step_counters by (simp_all add: counters_step_def)
  have z: "open_requests (initial_state a) = 0" "eval_requests (initial_state a) = 0"
    "input_requests (initial_state a) = 0" "frame_seq (initial_state a) = 0"
    by (simp_all add: initial_state_def)
  show ?thesis
    using run_running [of es s] step_counters [of s e]
      run_counter_mono [where c = open_requests, OF s1 z(1)]
      run_counter_mono [where c = eval_requests, OF s2 z(2)]
      run_counter_mono [where c = input_requests, OF s3 z(3)]
      run_counter_mono [where c = frame_seq, OF s4 z(4)]
    by blast
qed

text \<open>
  Witness for C9: two accepted \<open>/open\<close> requests from start-up; the flag stays true and
  the open counter goes from 1 to 2.
\<close>

theorem running_and_counters_monotone_witness:
  "running (initial_state example_args)
   \<and> open_requests (run [open_event] (initial_state example_args)) = 1
   \<and> open_requests (run ([open_event] @ [open_event]) (initial_state example_args)) = 2
   \<and> open_requests (run [open_event] (initial_state example_args))
       \<le> open_requests (run ([open_event] @ [open_event]) (initial_state example_args))"
proof -
  have r: "running (run [open_event] (initial_state example_args))"
    by (simp add: open_event_def ServeHttp_request_def example_request_def route_open_def
      GetParam_def ParseUrlEncoded_def ParseUrlEncoded_pair_def post_checked_def Let_def
      initial_state_def)
  have l: "length ([open_event] @ [open_event]) < 2 ^ 64" by simp
  have z: "open_requests (initial_state example_args) = 0" by (simp add: initial_state_def)
  show ?thesis
    using running_and_counters_monotone [of "[open_event]" "initial_state example_args"
        open_event "[open_event]" "[open_event]" example_args] r l
    by (simp add: step_open_event z)
qed

text \<open>
  C10. A parameter that \<open>GetParam\<close> finds with an empty value (in the query, or in the
  form when the query does not have it) is looked up as the empty string, as an absent
  parameter is; so \<open>/open\<close> with an empty \<open>url\<close> and \<open>/eval\<close> with an empty \<open>js\<close> get
  the very result of the request that omits the parameter: the 400 response, no task, the
  record unchanged.
\<close>

theorem empty_param_as_absent:
  assumes "query req key = Some [] \<or> (query req key = None \<and> form req key = Some [])"
    and "query req' key = None" and "form req' key = None"
  shows "GetParam req key = [] \<and> GetParam req' key = []
         \<and> (key = ''url'' \<and> path req = ''/open'' \<and> path req' = ''/open'' \<longrightarrow>
               ServeHttp_request p req s = ServeHttp_request p' req' s
               \<and> ServeHttp_request p req s =
                   \<lparr>response = json_response 400 body_missing_url, posted = None, new_state = s\<rparr>)
         \<and> (key = ''js'' \<and> path req = ''/eval'' \<and> path req' = ''/eval'' \<longrightarrow>
               ServeHttp_request p req s = ServeHttp_request p' req' s
               \<and> ServeHttp_request p req s =
                   \<lparr>response = json_response 400 body_missing_js, posted = None, new_state = s\<rparr>)"
proof -
  have g: "GetParam req key = []" "GetParam req' key = []"
    using assms by (auto simp: GetParam_def)
  then show ?thesis
    by (auto simp: ServeHttp_request_def route_open_def route_eval_def)
qed

text \<open>
  Witness for C10: \<open>/open?url=\<close> and \<open>/open\<close> at start-up have the same result, the
  400 response.
\<close>

theorem empty_param_as_absent_witness:
  "GetParam (example_request ''/open'' ''url='') ''url'' = []
   \<and> ServeHttp_request True (example_request ''/open'' ''url='') (initial_state example_args)
       = ServeHttp_request True (example_request ''/open'' []) (initial_state example_args)
   \<and> resp_status (response (ServeHttp_request True (example_request ''/open'' ''url='')
        (initial_state example_args))) = 400"
proof -
  have a: "query (example_request ''/open'' ''url='') ''url'' = Some [] \<or>
           (query (example_request ''/open'' ''url='') ''url'' = None \<and>
            form (example_request ''/open'' ''url='') ''url'' = Some [])"
    by (simp add: example_request_def ParseUrlEncoded_def ParseUrlEncoded_pair_def)
  have b: "query (example_request ''/open'' []) ''url'' = None" by (rule example_query_empty)
  have c: "form (example_request ''/open'' []) ''url'' = None" by (rule example_request_form)
  have h: "''url'' = ''url'' \<and> path (example_request ''/open'' ''url='') = ''/open''
             \<and> path (example_request ''/open'' []) = ''/open''"
    by (simp add: example_request_path)
  from empty_param_as_absent [OF a b c, where p = True and p' = True
      and s = "initial_state example_args"] h
  have g: "GetParam (example_request ''/open'' ''url='') ''url'' = []"
    and x: "ServeHttp_request True (example_request ''/open'' ''url='') (initial_state example_args)
            = ServeHttp_request True (example_request ''/open'' []) (initial_state example_args)"
    and y: "ServeHttp_request True (example_request ''/open'' ''url='') (initial_state example_args)
            = \<lparr>response = json_response 400 body_missing_url, posted = None,
                new_state = initial_state example_args\<rparr>"
    by blast+
  have z: "resp_status (response (ServeHttp_request True (example_request ''/open'' ''url='')
        (initial_state example_args))) = 400"
    unfolding y by (simp add: json_response_def)
  show ?thesis using g x z by blast
qed

end
